theory Spec2Isabelle
  imports Complex_Main "HOL-Library.Sublist"
begin

section \<open>Bulls and Cows (entropy edition): the class \<open>BullsAndCowsGame\<close>\<close>

text \<open>
  The theory embeds \<^verbatim>\<open>src/BullsAndCowsgame.py\<close>. A code (secret or guess) is a Python
  tuple of integers, here an \<open>int list\<close>; a feedback is the pair \<open>(bulls, cows)\<close> of
  Python integers. The object \<^verbatim>\<open>self\<close> is a record of the four attributes that
  \<^verbatim>\<open>__init__\<close> creates. Python floats are modelled by the reals: \<^verbatim>\<open>math.log2\<close> is the
  base-2 logarithm and \<^verbatim>\<open>/\<close> is exact division, so nothing below speaks about rounding.
  Writing to standard output (\<^verbatim>\<open>print\<close>) is no part of the object and is left out.
\<close>

subsection \<open>Data\<close>

type_synonym code = "int list"

type_synonym feedback = "int \<times> int"

record game =
  all_combinations :: "code list"
  candidates :: "code list"
  secret :: "code option"
  history :: "(code \<times> feedback) list"

text \<open>
  The exceptions that the library calls of the module can raise: \<^verbatim>\<open>math.log2\<close> raises
  \<^verbatim>\<open>ValueError\<close> outside its domain, \<^verbatim>\<open>/\<close> raises \<^verbatim>\<open>ZeroDivisionError\<close>, and
  \<^verbatim>\<open>random.choice\<close> raises \<^verbatim>\<open>IndexError\<close> on an empty sequence.
\<close>

datatype py_error = ValueError | ZeroDivisionError | IndexError

text \<open>
  A method that reads or writes \<^verbatim>\<open>self\<close> takes the object and returns its result (or
  the exception it raised) together with the object as the call leaves it.
\<close>

type_synonym 'a outcome = "(py_error + 'a) \<times> game"

subsection \<open>Library functions\<close>

text \<open>
  \<^verbatim>\<open>itertools.permutations(iterable, r)\<close>: the \<open>r\<close>-length arrangements of the elements,
  elements told apart by position, in lexicographic order of the positions.
\<close>

fun remove_nth :: "nat \<Rightarrow> 'a list \<Rightarrow> 'a list" where
  "remove_nth i xs = take i xs @ drop (Suc i) xs"

fun permutations :: "'a list \<Rightarrow> nat \<Rightarrow> 'a list list" where
  "permutations xs 0 = [[]]"
| "permutations xs (Suc r) =
     concat (map (\<lambda>i. map ((#) (xs ! i)) (permutations (remove_nth i xs) r)) [0..<length xs])"

text \<open>
  \<^verbatim>\<open>collections.Counter(xs)\<close>: a dictionary from each element to the number of its
  occurrences, the keys in the order of their first occurrence. The association list
  keeps that order, which is the order of \<^verbatim>\<open>counts.values()\<close>.
\<close>

fun counter_incr :: "'a \<Rightarrow> ('a \<times> nat) list \<Rightarrow> ('a \<times> nat) list" where
  "counter_incr x [] = [(x, 1)]"
| "counter_incr x ((k, n) # kvs) =
     (if k = x then (k, Suc n) # kvs else (k, n) # counter_incr x kvs)"

definition Counter :: "'a list \<Rightarrow> ('a \<times> nat) list" where
  "Counter xs = foldl (\<lambda>counts x. counter_incr x counts) [] xs"

definition counter_values :: "('a \<times> nat) list \<Rightarrow> nat list" where
  "counter_values counts = map snd counts"

definition py_log2 :: "real \<Rightarrow> py_error + real" where
  "py_log2 x = (if x \<le> 0 then Inl ValueError else Inr (log 2 x))"

definition py_truediv :: "nat \<Rightarrow> nat \<Rightarrow> py_error + real" where
  "py_truediv a b = (if b = 0 then Inl ZeroDivisionError else Inr (real a / real b))"

subsection \<open>The methods\<close>

text \<open>\<^verbatim>\<open>__init__\<close>: the pool starts as a copy of the 5040 permutations.\<close>

definition init :: game where
  "init =
     (let combos = permutations [0, 1, 2, 3, 4, 5, 6, 7, 8, 9] 4
      in \<lparr>all_combinations = combos, candidates = combos, secret = None, history = []\<rparr>)"

text \<open>
  \<^verbatim>\<open>generate_secret\<close>: \<^verbatim>\<open>random.choice\<close> draws an index; the draw is the parameter \<open>r\<close>.
\<close>

definition generate_secret :: "nat \<Rightarrow> game \<Rightarrow> code outcome" where
  "generate_secret r self =
     (if all_combinations self = [] then (Inl IndexError, self)
      else let s = all_combinations self ! (r mod length (all_combinations self))
           in (Inr s, self\<lparr>secret := Some s\<rparr>))"

text \<open>
  \<^verbatim>\<open>get_feedback(self, secret, guess)\<close> reads and writes no attribute of \<^verbatim>\<open>self\<close> and
  calls nothing that can fail on tuples of integers, so it is a function of its two
  arguments. (The names \<^verbatim>\<open>secret\<close>, \<^verbatim>\<open>candidates\<close> and \<^verbatim>\<open>total\<close> of parameters and local
  variables are written \<open>secret'\<close>, \<open>cands\<close> and \<open>total'\<close>, the plain names being taken.)
  \<^verbatim>\<open>zip\<close> stops at the shorter tuple; \<^verbatim>\<open>sum\<close> adds the truth values as 0 and 1; the
  difference is a Python integer and may be negative.
\<close>

definition get_feedback :: "code \<Rightarrow> code \<Rightarrow> feedback" where
  "get_feedback secret' guess =
     (let bulls = sum_list (map (\<lambda>(s, g). of_bool (s = g)) (zip secret' guess));
          common_digits = int (card (set secret' \<inter> set guess));
          cows = common_digits - bulls
      in (bulls, cows))"

definition calculate_uncertainty :: "game \<Rightarrow> real outcome" where
  "calculate_uncertainty self =
     (let pool_size = length (candidates self)
      in if pool_size = 0 then (Inr 0, self)
         else (py_log2 (real pool_size), self))"

text \<open>The loop over \<^verbatim>\<open>counts.values()\<close> of \<^verbatim>\<open>calculate_guess_entropy\<close>.\<close>

fun entropy_loop :: "nat list \<Rightarrow> nat \<Rightarrow> real \<Rightarrow> py_error + real" where
  "entropy_loop [] total' entropy = Inr entropy"
| "entropy_loop (count # rest) total' entropy =
     (case py_truediv count total' of
        Inl e \<Rightarrow> Inl e
      | Inr p \<Rightarrow>
          (case py_log2 p of
             Inl e \<Rightarrow> Inl e
           | Inr l \<Rightarrow> entropy_loop rest total' (entropy - p * l)))"

definition calculate_guess_entropy :: "game \<Rightarrow> code \<Rightarrow> code list \<Rightarrow> real outcome" where
  "calculate_guess_entropy self guess cands =
     (let outcomes = map (\<lambda>possible_secret. get_feedback possible_secret guess) cands;
          counts = Counter outcomes;
          total' = length cands
      in (entropy_loop (counter_values counts) total' 0, self))"

text \<open>
  The search loop of \<^verbatim>\<open>suggest_best_guess\<close>. The call \<^verbatim>\<open>self.calculate_guess_entropy\<close> is
  looked up on the object when the loop runs, so the loop takes the method as the
  parameter \<open>H\<close>; the loop walks the list that \<^verbatim>\<open>search_space\<close> was bound to and reads
  \<^verbatim>\<open>self.candidates\<close> afresh for every call. An exception of the call ends the loop.
\<close>

fun search_loop ::
  "(game \<Rightarrow> code \<Rightarrow> code list \<Rightarrow> real outcome) \<Rightarrow> code list \<Rightarrow> code option \<Rightarrow> real \<Rightarrow>
     game \<Rightarrow> code option outcome" where
  "search_loop H [] best_guess max_entropy self = (Inr best_guess, self)"
| "search_loop H (guess # rest) best_guess max_entropy self =
     (case H self guess (candidates self) of
        (Inl e, self') \<Rightarrow> (Inl e, self')
      | (Inr h, self') \<Rightarrow>
          (if h > max_entropy then search_loop H rest (Some guess) h self'
           else search_loop H rest best_guess max_entropy self'))"

definition suggest_best_guess_with ::
  "(game \<Rightarrow> code \<Rightarrow> code list \<Rightarrow> real outcome) \<Rightarrow> game \<Rightarrow> code option outcome" where
  "suggest_best_guess_with H self =
     (if length (candidates self) = 5040 then (Inr (Some [0, 1, 2, 3]), self)
      else let search_space = candidates self
           in search_loop H search_space None (- 1) self)"

definition suggest_best_guess :: "game \<Rightarrow> code option outcome" where
  "suggest_best_guess self = suggest_best_guess_with calculate_guess_entropy self"

text \<open>\<^verbatim>\<open>filter_candidates\<close> returns nothing; its effect is the new binding of the pool.\<close>

definition filter_candidates :: "game \<Rightarrow> code \<Rightarrow> feedback \<Rightarrow> game" where
  "filter_candidates self guess actual_feedback =
     self\<lparr>candidates := [c \<leftarrow> candidates self. get_feedback c guess = actual_feedback]\<rparr>"

text \<open>
  The invariant of a code, as \<^verbatim>\<open>parse_input\<close> and the permutations of \<^verbatim>\<open>range(10)\<close>
  establish it: four digits, no digit twice.
\<close>

definition valid_code :: "code \<Rightarrow> bool" where
  "valid_code c = (length c = 4 \<and> distinct c \<and> list_all (\<lambda>d. 0 \<le> d \<and> d \<le> 9) c)"

section \<open>Properties\<close>

subsection \<open>Codes and the initial pool\<close>

text \<open>
  The valid codes are exactly the entries of the list that \<^verbatim>\<open>__init__\<close> builds.
\<close>

lemma set_remove_nth:
  assumes "distinct xs" and "i < length xs"
  shows "set (remove_nth i xs) = set xs - {xs ! i}"
proof -
  have "xs = take i xs @ xs ! i # drop (Suc i) xs"
    using assms(2) by (rule id_take_nth_drop)
  then obtain as bs where xs: "xs = as @ xs ! i # bs" and as: "as = take i xs"
    and bs: "bs = drop (Suc i) xs"
    by blast
  from assms(1) xs have "xs ! i \<notin> set as" "xs ! i \<notin> set bs"
    by (metis distinct_append distinct.simps(2) disjoint_iff list.set_intros(1))+
  moreover have "set xs = set as \<union> {xs ! i} \<union> set bs"
    by (subst xs) auto
  ultimately show ?thesis
    unfolding remove_nth.simps as [symmetric] bs [symmetric] by auto
qed

lemma distinct_remove_nth: "distinct xs \<Longrightarrow> distinct (remove_nth i xs)"
  by (auto simp: set_take_disj_set_drop_if_distinct)

lemma set_permutations:
  "distinct xs \<Longrightarrow>
   set (permutations xs r) = {ys. length ys = r \<and> distinct ys \<and> set ys \<subseteq> set xs}"
proof (induction r arbitrary: xs)
  case 0
  show ?case by auto
next
  case (Suc r)
  have step: "set (permutations (remove_nth i xs) r) =
      {zs. length zs = r \<and> distinct zs \<and> set zs \<subseteq> set xs - {xs ! i}}" if "i < length xs" for i
    using Suc.IH [OF distinct_remove_nth [OF Suc.prems]] set_remove_nth [OF Suc.prems that]
    by simp
  have "set (permutations xs (Suc r)) =
      (\<Union>i\<in>{..<length xs}. (#) (xs ! i) ` set (permutations (remove_nth i xs) r))"
    by (auto simp del: remove_nth.simps)
  also have "\<dots> = (\<Union>i\<in>{..<length xs}.
      (#) (xs ! i) ` {zs. length zs = r \<and> distinct zs \<and> set zs \<subseteq> set xs - {xs ! i}})"
    using step by simp
  also have "\<dots> = {ys. length ys = Suc r \<and> distinct ys \<and> set ys \<subseteq> set xs}"
  proof (intro set_eqI iffI)
    fix ys
    assume "ys \<in> (\<Union>i\<in>{..<length xs}.
      (#) (xs ! i) ` {zs. length zs = r \<and> distinct zs \<and> set zs \<subseteq> set xs - {xs ! i}})"
    then show "ys \<in> {ys. length ys = Suc r \<and> distinct ys \<and> set ys \<subseteq> set xs}"
      by auto
  next
    fix ys
    assume "ys \<in> {ys. length ys = Suc r \<and> distinct ys \<and> set ys \<subseteq> set xs}"
    then obtain y zs where ys: "ys = y # zs" and zs: "length zs = r" "distinct zs"
      "y \<notin> set zs" "set zs \<subseteq> set xs" and y: "y \<in> set xs"
      by (cases ys) auto
    from y obtain i where "i < length xs" "xs ! i = y"
      by (auto simp: in_set_conv_nth)
    with ys zs show "ys \<in> (\<Union>i\<in>{..<length xs}.
      (#) (xs ! i) ` {zs. length zs = r \<and> distinct zs \<and> set zs \<subseteq> set xs - {xs ! i}})"
      by auto
  qed
  finally show ?case .
qed

lemma valid_code_iff_initial_pool: "valid_code c \<longleftrightarrow> c \<in> set (all_combinations init)"
proof -
  have digits: "set [0, 1, 2, 3, 4, 5, 6, 7, 8, 9::int] = {0..9}"
  proof (intro set_eqI iffI)
    fix d :: int
    assume "d \<in> {0..9}"
    then have "d = 0 \<or> d = 1 \<or> d = 2 \<or> d = 3 \<or> d = 4 \<or> d = 5 \<or> d = 6 \<or> d = 7 \<or>
        d = 8 \<or> d = 9"
      by (simp only: atLeastAtMost_iff) arith
    then show "d \<in> set [0, 1, 2, 3, 4, 5, 6, 7, 8, 9]"
      by auto
  qed auto
  have "all_combinations init = permutations [0, 1, 2, 3, 4, 5, 6, 7, 8, 9] 4"
    by (simp add: init_def Let_def del: permutations.simps)
  moreover have "distinct [0, 1, 2, 3, 4, 5, 6, 7, 8, 9::int]"
    by simp
  ultimately have "set (all_combinations init) =
      {ys. length ys = 4 \<and> distinct ys \<and> set ys \<subseteq> {0..9}}"
    by (simp only: set_permutations digits)
  then show ?thesis
    by (auto simp: valid_code_def list_all_iff)
qed

subsection \<open>The feedback oracle\<close>

lemma bulls_count:
  "sum_list (map (\<lambda>(s, g). of_bool (s = g)) (zip xs ys)) =
     int (card {i. i < min (length xs) (length ys) \<and> xs ! i = ys ! i})"
proof -
  let ?n = "min (length xs) (length ys)"
  have "sum_list (map (\<lambda>(s, g). of_bool (s = g)) (zip xs ys)) =
          (\<Sum>i = 0..<?n. (of_bool (xs ! i = ys ! i) :: int))"
    by (simp add: sum_list_sum_nth min.commute)
  also have "\<dots> = int (card ({0..<?n} \<inter> {i. xs ! i = ys ! i}))"
    by simp
  also have "{0..<?n} \<inter> {i. xs ! i = ys ! i} = {i. i < ?n \<and> xs ! i = ys ! i}"
    by auto
  finally show ?thesis .
qed

lemma bulls_le_common:
  assumes "distinct xs"
  shows "card {i. i < min (length xs) (length ys) \<and> xs ! i = ys ! i}
           \<le> card (set xs \<inter> set ys)"
proof (rule card_inj_on_le)
  let ?B = "{i. i < min (length xs) (length ys) \<and> xs ! i = ys ! i}"
  show "inj_on ((!) xs) ?B"
    using assms by (intro inj_on_nth) auto
  show "(!) xs ` ?B \<subseteq> set xs \<inter> set ys"
    by (auto simp: in_set_conv_nth)
  show "finite (set xs \<inter> set ys)"
    by simp
qed

lemma get_feedback_eq:
  "get_feedback xs ys =
     (int (card {i. i < min (length xs) (length ys) \<and> xs ! i = ys ! i}),
      int (card (set xs \<inter> set ys)) -
        int (card {i. i < min (length xs) (length ys) \<and> xs ! i = ys ! i}))"
  by (simp add: get_feedback_def bulls_count Let_def)

text \<open>
  Claim C2. For two valid codes, \<open>get_feedback\<close> returns \<open>(bulls, cows)\<close> where bulls is
  the number of positions \<open>i\<close> (of the four) at which secret and guess hold the same
  symbol, and cows is the number of symbols the two codes have in common minus bulls.
\<close>

theorem get_feedback_bulls_cows:
  assumes "valid_code secret'" and "valid_code guess"
  shows "get_feedback secret' guess =
           (int (card {i. i < 4 \<and> secret' ! i = guess ! i}),
            int (card (set secret' \<inter> set guess)) -
              int (card {i. i < 4 \<and> secret' ! i = guess ! i}))"
  using assms by (simp add: get_feedback_eq valid_code_def)

theorem get_feedback_bulls_cows_witness:
  "get_feedback [1, 2, 3, 4] [1, 3, 5, 6] =
     (int (card {i. i < 4 \<and> [1, 2, 3, 4::int] ! i = [1, 3, 5, 6] ! i}),
      int (card (set [1, 2, 3, 4::int] \<inter> set [1, 3, 5, 6])) -
        int (card {i. i < 4 \<and> [1, 2, 3, 4::int] ! i = [1, 3, 5, 6] ! i})) \<and>
   get_feedback [1, 2, 3, 4] [1, 3, 5, 6] = (1, 1)"
  using get_feedback_bulls_cows [of "[1, 2, 3, 4]" "[1, 3, 5, 6]"]
  by (simp add: valid_code_def get_feedback_def)

text \<open>
  Claim C5. For two valid codes the feedback is in range: bulls and cows both lie
  between 0 and 4 and their sum is at most 4; cows is not negative because the symbols
  of a valid code are pairwise distinct.
\<close>

theorem get_feedback_in_range:
  assumes "valid_code c" and "valid_code g"
  shows "0 \<le> fst (get_feedback c g) \<and> fst (get_feedback c g) \<le> 4 \<and>
         0 \<le> snd (get_feedback c g) \<and> snd (get_feedback c g) \<le> 4 \<and>
         fst (get_feedback c g) + snd (get_feedback c g) \<le> 4"
proof -
  let ?B = "{i. i < min (length c) (length g) \<and> c ! i = g ! i}"
  have len: "length c = 4" and dist: "distinct c"
    using assms(1) by (simp_all add: valid_code_def)
  have "card (set c \<inter> set g) \<le> card (set c)"
    by (intro card_mono) auto
  also have "\<dots> = 4"
    using len dist by (simp add: distinct_card)
  finally have common: "card (set c \<inter> set g) \<le> 4" .
  have bulls: "card ?B \<le> card (set c \<inter> set g)"
    using dist by (rule bulls_le_common)
  show ?thesis
    using common bulls by (simp add: get_feedback_eq)
qed

theorem get_feedback_in_range_witness:
  "0 \<le> fst (get_feedback [1, 2, 3, 4] [1, 3, 5, 6]) \<and>
   fst (get_feedback [1, 2, 3, 4] [1, 3, 5, 6]) \<le> 4 \<and>
   0 \<le> snd (get_feedback [1, 2, 3, 4] [1, 3, 5, 6]) \<and>
   snd (get_feedback [1, 2, 3, 4] [1, 3, 5, 6]) \<le> 4 \<and>
   fst (get_feedback [1, 2, 3, 4] [1, 3, 5, 6]) + snd (get_feedback [1, 2, 3, 4] [1, 3, 5, 6]) \<le> 4"
  using get_feedback_in_range [of "[1, 2, 3, 4]" "[1, 3, 5, 6]"]
  by (simp add: valid_code_def)

text \<open>
  Claim C4, as amended. \<open>get_feedback\<close> does not inspect its arguments and has no way to
  fail: for every two integer sequences, well-formed codes or not, it returns a pair
  whose first component is the number of agreeing positions up to the shorter length and
  whose components add up to the number of distinct symbols the sequences share. On
  sequences with repeated symbols the second component can therefore be negative, as
  for \<open>(1,1,2,3)\<close> against \<open>(1,1,4,5)\<close>, which yields \<open>(2, -1)\<close>.
\<close>

theorem get_feedback_unchecked:
  "fst (get_feedback xs ys) =
     int (card {i. i < min (length xs) (length ys) \<and> xs ! i = ys ! i}) \<and>
   fst (get_feedback xs ys) + snd (get_feedback xs ys) = int (card (set xs \<inter> set ys))"
  by (simp add: get_feedback_eq)

theorem get_feedback_repeated_symbols_counterexample:
  "\<not> valid_code [1, 1, 2, 3] \<and> \<not> valid_code [1, 1, 4, 5] \<and>
   get_feedback [1, 1, 2, 3] [1, 1, 4, 5] = (2, - 1)"
  by (simp add: valid_code_def get_feedback_def)

subsection \<open>The candidate pool\<close>

lemma count_list_filter:
  "count_list (filter P xs) c = (if P c then count_list xs c else 0)"
  by (induction xs) auto

text \<open>
  Claim C1. \<open>filter_candidates\<close> replaces the pool by the subsequence of the old pool
  that holds exactly the candidates \<open>c\<close> with \<open>get_feedback c guess\<close> equal to the observed
  feedback: the new pool is a subsequence of the old one (so the survivors keep their
  relative order), a code is in it exactly if it was in the old pool and scores the
  observed feedback, and each survivor occurs as often as before. No assumption on the
  codes is needed.
\<close>

theorem filter_candidates_subsequence:
  "subseq (candidates (filter_candidates self guess fb)) (candidates self) \<and>
   (\<forall>c. (c \<in> set (candidates (filter_candidates self guess fb))) =
         (c \<in> set (candidates self) \<and> get_feedback c guess = fb)) \<and>
   (\<forall>c. count_list (candidates (filter_candidates self guess fb)) c =
         (if get_feedback c guess = fb then count_list (candidates self) c else 0))"
  by (simp add: filter_candidates_def count_list_filter)

lemma filter_candidates_changes_pool:
  "candidates (filter_candidates
     \<lparr>all_combinations = [], candidates = [[1, 2, 3, 4], [1, 2, 4, 3]], secret = None,
      history = []\<rparr> [1, 2, 3, 4] (4, 0)) = [[1, 2, 3, 4]]"
  by (simp add: filter_candidates_def get_feedback_def)

subsection \<open>The uncertainty estimator\<close>

lemma calculate_uncertainty_value:
  "calculate_uncertainty self =
     (Inr (if candidates self = [] then 0 else log 2 (real (length (candidates self)))), self)"
  by (simp add: calculate_uncertainty_def py_log2_def)

lemma log2_length_mono:
  assumes "length xs \<le> length ys"
  shows "(if xs = [] then 0 else log 2 (real (length xs)))
           \<le> (if ys = [] then 0 else log 2 (real (length ys)))"
proof (cases "xs = []")
  case True
  have "0 \<le> log 2 (real (length ys))" if "ys \<noteq> []"
    using that by (cases ys) simp_all
  with True show ?thesis by simp
next
  case False
  then have "0 < length xs" by simp
  with assms have "0 < length ys" by linarith
  with \<open>0 < length xs\<close> assms False show ?thesis by auto
qed

text \<open>
  Claim C6. In every state, for every guess and feedback, \<open>calculate_uncertainty\<close>
  returns a number before and after \<open>filter_candidates\<close> (it raises in neither state),
  and the number after is at most the number before. The numbers are the base-2
  logarithm of the pool size, or 0 for the empty pool, over the reals.
\<close>

theorem uncertainty_non_increasing:
  "\<exists>before after.
     calculate_uncertainty self = (Inr before, self) \<and>
     calculate_uncertainty (filter_candidates self guess fb) =
       (Inr after, filter_candidates self guess fb) \<and>
     after \<le> before"
proof -
  have le: "length (candidates (filter_candidates self guess fb)) \<le> length (candidates self)"
    by (simp add: filter_candidates_def)
  show ?thesis
    by (intro exI conjI, rule calculate_uncertainty_value, rule calculate_uncertainty_value,
        rule log2_length_mono [OF le])
qed

subsection \<open>The guess advisor\<close>

lemma length_remove_nth: "i < length xs \<Longrightarrow> length (remove_nth i xs) = length xs - 1"
  by simp

lemma length_permutations:
  "length (permutations xs r) = (\<Prod>i<r. length xs - i)"
proof (induction r arbitrary: xs)
  case 0
  show ?case by simp
next
  case (Suc r)
  let ?n = "length xs"
  have "length (permutations xs (Suc r)) =
          sum_list (map (\<lambda>i. length (permutations (remove_nth i xs) r)) [0..<?n])"
    by (simp add: length_concat comp_def del: remove_nth.simps)
  also have "\<dots> = sum_list (map (\<lambda>i. \<Prod>j<r. (?n - 1) - j) [0..<?n])"
    by (rule arg_cong [where f = sum_list], rule map_cong)
       (simp_all add: Suc.IH length_remove_nth del: remove_nth.simps)
  also have "\<dots> = ?n * (\<Prod>j<r. (?n - 1) - j)"
    by (simp add: sum_list_triv)
  also have "\<dots> = (\<Prod>i<Suc r. ?n - i)"
    by (subst prod.lessThan_Suc_shift) simp
  finally show ?case .
qed

lemma length_candidates_init: "length (candidates init) = 5040"
proof -
  have "{..<4::nat} = {0, 1, 2, 3}"
    by auto
  then have ffact: "(\<Prod>i<4::nat. 10 - i) = (5040::nat)"
    by simp
  have len: "length [0, 1, 2, 3, 4, 5, 6, 7, 8, 9::int] = 10"
    by simp
  have "candidates init = permutations [0, 1, 2, 3, 4, 5, 6, 7, 8, 9] 4"
    by (simp add: init_def Let_def del: permutations.simps)
  then show ?thesis
    by (simp only: length_permutations len ffact)
qed

lemma search_loop_raises:
  assumes "xs \<noteq> []"
  shows "search_loop (\<lambda>s g cs. (Inl e, s)) xs best m self = (Inl e, self)"
  using assms by (cases xs) simp_all

text \<open>
  Claim C3. When the pool has exactly 5040 entries, as the initial pool has,
  \<open>suggest_best_guess\<close> returns the opening code \<open>(0,1,2,3)\<close> and leaves the object as
  it is; it does so whatever method stands for \<open>calculate_guess_entropy\<close>, also one that
  raises on every call, so no entropy is evaluated on this path. (On any other non-empty
  pool a raising method makes the search raise, by \<open>search_loop_raises\<close>.)
\<close>

theorem suggest_best_guess_fast_path:
  assumes "length (candidates self) = 5040"
  shows "suggest_best_guess self = (Inr (Some [0, 1, 2, 3]), self) \<and>
         suggest_best_guess_with H self = (Inr (Some [0, 1, 2, 3]), self)"
  using assms by (simp add: suggest_best_guess_def suggest_best_guess_with_def)

theorem suggest_best_guess_fast_path_witness:
  "length (candidates init) = 5040 \<and>
   suggest_best_guess init = (Inr (Some [0, 1, 2, 3]), init) \<and>
   suggest_best_guess_with (\<lambda>s g cs. (Inl ValueError, s)) init = (Inr (Some [0, 1, 2, 3]), init)"
  using suggest_best_guess_fast_path [of init "\<lambda>s g cs. (Inl ValueError, s)"]
    length_candidates_init
  by simp

lemma calculate_guess_entropy_singleton: "calculate_guess_entropy self x [x] = (Inr 0, self)"
  by (simp add: calculate_guess_entropy_def Counter_def counter_values_def
      py_truediv_def py_log2_def)

text \<open>
  Claim C7. On a pool that holds the single code \<open>x\<close>, \<open>suggest_best_guess\<close> returns
  \<open>x\<close>: the one outcome has probability 1, the entropy is 0, which exceeds the initial
  maximum of -1. This holds for every \<open>x\<close>, valid code or not.
\<close>

theorem suggest_best_guess_singleton:
  "suggest_best_guess (self\<lparr>candidates := [x]\<rparr>) = (Inr (Some x), self\<lparr>candidates := [x]\<rparr>)"
  by (simp add: suggest_best_guess_def suggest_best_guess_with_def
      calculate_guess_entropy_singleton)

text \<open>
  Claim C10. On the empty pool \<open>suggest_best_guess\<close> returns \<open>None\<close>: the size is not
  5040, the loop body never runs (so the result is the same for every entropy method),
  nothing is raised and the initial value of \<open>best_guess\<close> is returned.
\<close>

theorem suggest_best_guess_empty_pool:
  "suggest_best_guess (self\<lparr>candidates := []\<rparr>) = (Inr None, self\<lparr>candidates := []\<rparr>) \<and>
   suggest_best_guess_with H (self\<lparr>candidates := []\<rparr>) = (Inr None, self\<lparr>candidates := []\<rparr>)"
  by (simp add: suggest_best_guess_def suggest_best_guess_with_def)

text \<open>
  The exceptions of the model are never raised by the advisor: every count of a
  \<^verbatim>\<open>Counter\<close> is positive and the total is positive whenever there is a count, so the
  division and the logarithm are defined, and \<open>suggest_best_guess\<close> returns in every state.
\<close>

lemma counter_incr_positive:
  "list_all (\<lambda>kv. 0 < snd kv) kvs \<Longrightarrow> list_all (\<lambda>kv. 0 < snd kv) (counter_incr x kvs)"
  by (induction kvs) auto

lemma foldl_counter_incr_positive:
  "list_all (\<lambda>kv. 0 < snd kv) kvs \<Longrightarrow>
   list_all (\<lambda>kv. 0 < snd kv) (foldl (\<lambda>counts x. counter_incr x counts) kvs xs)"
  by (induction xs arbitrary: kvs) (simp_all add: counter_incr_positive)

lemma Counter_positive: "list_all (\<lambda>n. 0 < n) (counter_values (Counter xs))"
  using foldl_counter_incr_positive [of "[]" xs]
  by (simp add: Counter_def counter_values_def list_all_iff)

lemma entropy_loop_returns:
  assumes "0 < total'" and "list_all (\<lambda>n. 0 < n) counts"
  shows "\<exists>h. entropy_loop counts total' entropy = Inr h"
  using assms(2)
proof (induction counts arbitrary: entropy)
  case Nil
  show ?case by simp
next
  case (Cons count rest)
  then have "0 < count" and rest: "list_all (\<lambda>n. 0 < n) rest"
    by simp_all
  from assms(1) \<open>0 < count\<close> have "0 < real count / real total'"
    by simp
  with assms(1) have "py_truediv count total' = Inr (real count / real total')"
    and "py_log2 (real count / real total') = Inr (log 2 (real count / real total'))"
    by (simp_all add: py_truediv_def py_log2_def not_le)
  with Cons.IH [OF rest] show ?case
    by simp
qed

lemma calculate_guess_entropy_returns:
  "\<exists>h. calculate_guess_entropy self guess cands = (Inr h, self)"
proof (cases cands)
  case Nil
  then show ?thesis
    by (simp add: calculate_guess_entropy_def Counter_def counter_values_def)
next
  case (Cons c cs)
  then have "0 < length cands" by simp
  then have "\<exists>h. entropy_loop
      (counter_values (Counter (map (\<lambda>possible_secret. get_feedback possible_secret guess) cands)))
      (length cands) 0 = Inr h"
    using Counter_positive by (rule entropy_loop_returns)
  then show ?thesis
    by (simp add: calculate_guess_entropy_def)
qed

lemma search_loop_returns:
  "\<exists>b. search_loop calculate_guess_entropy xs best m self = (Inr b, self)"
proof (induction xs arbitrary: best m)
  case Nil
  show ?case by simp
next
  case (Cons guess rest)
  obtain h where "calculate_guess_entropy self guess (candidates self) = (Inr h, self)"
    using calculate_guess_entropy_returns by blast
  with Cons.IH show ?case
    by simp
qed

lemma suggest_best_guess_returns: "\<exists>b. suggest_best_guess self = (Inr b, self)"
  by (simp add: suggest_best_guess_def suggest_best_guess_with_def search_loop_returns)

subsection \<open>What the methods read and write\<close>

lemma search_loop_frame:
  assumes "\<And>s g cs. snd (H s g cs) = s"
  shows "snd (search_loop H xs best m self) = self"
proof (induction xs arbitrary: best m)
  case Nil
  show ?case by simp
next
  case (Cons guess rest)
  obtain r where r: "H self guess (candidates self) = (r, self)"
    using assms [of self guess "candidates self"] by (cases "H self guess (candidates self)") simp
  show ?case
    by (cases r) (simp_all add: r Cons.IH)
qed

lemma calculate_guess_entropy_frame: "snd (calculate_guess_entropy self guess cands) = self"
  by (simp add: calculate_guess_entropy_def)

text \<open>
  Claim C8. \<open>calculate_uncertainty\<close>, \<open>calculate_guess_entropy\<close> and
  \<open>suggest_best_guess\<close> leave the object exactly as they found it, whether they return or
  raise. Of the other methods, \<open>generate_secret\<close> does not touch the pool, and
  \<open>filter_candidates\<close>, the one method that rebinds the pool (see
  \<open>filter_candidates_changes_pool\<close>), leaves the other three attributes alone.
\<close>

theorem advisor_and_estimator_read_only:
  "snd (calculate_uncertainty self) = self \<and>
   snd (calculate_guess_entropy self guess cands) = self \<and>
   snd (suggest_best_guess self) = self \<and>
   candidates (snd (generate_secret r self)) = candidates self \<and>
   all_combinations (filter_candidates self guess fb) = all_combinations self \<and>
   secret (filter_candidates self guess fb) = secret self \<and>
   history (filter_candidates self guess fb) = history self"
  by (simp add: calculate_uncertainty_def calculate_guess_entropy_frame suggest_best_guess_def
      suggest_best_guess_with_def search_loop_frame generate_secret_def filter_candidates_def
      Let_def)

lemma calculate_guess_entropy_value:
  "calculate_guess_entropy s guess cs = (fst (calculate_guess_entropy s' guess cs), s)"
  by (simp add: calculate_guess_entropy_def)

lemma search_loop_pool_only:
  assumes "candidates s1 = candidates s2"
  shows "fst (search_loop calculate_guess_entropy xs best m s1) =
         fst (search_loop calculate_guess_entropy xs best m s2)"
proof (induction xs arbitrary: best m)
  case Nil
  show ?case by simp
next
  case (Cons guess rest)
  define r where "r = fst (calculate_guess_entropy s2 guess (candidates s2))"
  have r1: "calculate_guess_entropy s1 guess (candidates s2) = (r, s1)"
    unfolding r_def by (rule calculate_guess_entropy_value)
  have r2: "calculate_guess_entropy s2 guess (candidates s2) = (r, s2)"
    unfolding r_def by (rule calculate_guess_entropy_value)
  show ?case
    by (cases r) (simp_all add: r1 r2 assms Cons.IH)
qed

text \<open>
  Claim C9. Two states with the same pool get the same answer from
  \<open>suggest_best_guess\<close>, whatever their secrets (and their other attributes) are: the
  result is a function of the pool alone.
\<close>

theorem suggest_best_guess_blind_to_secret:
  assumes "candidates s1 = candidates s2"
  shows "fst (suggest_best_guess s1) = fst (suggest_best_guess s2)"
proof (cases "length (candidates s2) = 5040")
  case True
  with assms show ?thesis
    by (simp add: suggest_best_guess_def suggest_best_guess_with_def)
next
  case False
  with assms show ?thesis
    using search_loop_pool_only [OF assms, of "candidates s2" None "- 1"]
    by (simp add: suggest_best_guess_def suggest_best_guess_with_def)
qed

theorem suggest_best_guess_blind_to_secret_witness:
  "candidates \<lparr>all_combinations = [], candidates = [[1, 2, 3, 4], [1, 2, 4, 3]],
      secret = Some [1, 2, 3, 4], history = []\<rparr> =
   candidates \<lparr>all_combinations = [], candidates = [[1, 2, 3, 4], [1, 2, 4, 3]],
      secret = Some [1, 2, 4, 3], history = []\<rparr> \<and>
   secret \<lparr>all_combinations = [], candidates = [[1, 2, 3, 4], [1, 2, 4, 3]],
      secret = Some [1, 2, 3, 4], history = []\<rparr> \<noteq>
   secret \<lparr>all_combinations = [], candidates = [[1, 2, 3, 4], [1, 2, 4, 3]],
      secret = Some [1, 2, 4, 3], history = []\<rparr> \<and>
   fst (suggest_best_guess \<lparr>all_combinations = [], candidates = [[1, 2, 3, 4], [1, 2, 4, 3]],
      secret = Some [1, 2, 3, 4], history = []\<rparr>) =
   fst (suggest_best_guess \<lparr>all_combinations = [], candidates = [[1, 2, 3, 4], [1, 2, 4, 3]],
      secret = Some [1, 2, 4, 3], history = []\<rparr>)"
  using suggest_best_guess_blind_to_secret
    [of "\<lparr>all_combinations = [], candidates = [[1, 2, 3, 4], [1, 2, 4, 3]],
           secret = Some [1, 2, 3, 4], history = []\<rparr>"
        "\<lparr>all_combinations = [], candidates = [[1, 2, 3, 4], [1, 2, 4, 3]],
           secret = Some [1, 2, 4, 3], history = []\<rparr>"]
  by simp

end
